theory Spec2Isabelle
  imports Main "HOL-Library.Multiset" "HOL-Library.List_Lexorder"
begin

section \<open>Data model of App.tsx\<close>

text \<open>
  The interface \<^verbatim>\<open>NewsItem\<close>. Its field \<^verbatim>\<open>url\<close> is named \<open>item_url\<close> here, since the
  component state has a \<^verbatim>\<open>url\<close> of its own.
\<close>

record NewsItem =
  title :: string
  author :: string
  date :: string
  source :: string
  item_url :: string
  imageUrl :: "string option"

text \<open>
  The interface \<^verbatim>\<open>ApiError\<close>: \<^verbatim>\<open>response?: { data?: { error?: string } }\<close>,
  \<^verbatim>\<open>request?: any\<close> and \<^verbatim>\<open>message: string\<close>. An optional member is an \<open>option\<close>;
  \<^verbatim>\<open>request\<close> is only ever tested for truthiness, so it is a \<open>bool\<close>.
\<close>

record ApiErrorData =
  data_error :: "string option"

record ApiErrorResponse =
  data :: "ApiErrorData option"

record ApiError =
  response :: "ApiErrorResponse option"
  request :: bool
  message :: string

datatype ServerStatus = Checking | Online | Offline

datatype SortBy = SortDate | SortTitle

text \<open>The seven \<^verbatim>\<open>useState\<close> cells of the component \<^verbatim>\<open>App\<close>.\<close>

record AppState =
  url :: string
  news :: "NewsItem list"
  loading :: bool
  filterKeyword :: string
  sortBy :: SortBy
  error :: string
  serverStatus :: ServerStatus

definition initialState :: AppState where
  "initialState =
     \<lparr>url = [], news = [], loading = False, filterKeyword = [], sortBy = SortDate,
      error = [], serverStatus = Checking\<rparr>"

definition setUrl :: "string \<Rightarrow> AppState \<Rightarrow> AppState" where
  "setUrl u s = s\<lparr>url := u\<rparr>"

definition setNews :: "NewsItem list \<Rightarrow> AppState \<Rightarrow> AppState" where
  "setNews l s = s\<lparr>news := l\<rparr>"

definition setLoading :: "bool \<Rightarrow> AppState \<Rightarrow> AppState" where
  "setLoading b s = s\<lparr>loading := b\<rparr>"

definition setFilterKeyword :: "string \<Rightarrow> AppState \<Rightarrow> AppState" where
  "setFilterKeyword k s = s\<lparr>filterKeyword := k\<rparr>"

definition setSortBy :: "SortBy \<Rightarrow> AppState \<Rightarrow> AppState" where
  "setSortBy k s = s\<lparr>sortBy := k\<rparr>"

definition setError :: "string \<Rightarrow> AppState \<Rightarrow> AppState" where
  "setError e s = s\<lparr>error := e\<rparr>"

definition setServerStatus :: "ServerStatus \<Rightarrow> AppState \<Rightarrow> AppState" where
  "setServerStatus st s = s\<lparr>serverStatus := st\<rparr>"

section \<open>The connectivity probe\<close>

text \<open>
  \<^verbatim>\<open>checkServer\<close> awaits \<^verbatim>\<open>axios.get\<close>; the argument says whether that promise was
  fulfilled (\<open>True\<close>) or rejected (\<open>False\<close>).
\<close>

definition checkServer :: "bool \<Rightarrow> AppState \<Rightarrow> AppState" where
  "checkServer fulfilled s =
     (if fulfilled then setServerStatus Online s
      else setError ''Server is offline. Please make sure the server is running on port 5000.''
             (setServerStatus Offline s))"

section \<open>The scrape request\<close>

text \<open>
  The \<^verbatim>\<open>data\<close> of a response. It is \<^verbatim>\<open>null\<close> or \<^verbatim>\<open>undefined\<close> (\<open>NoData m\<close>, where \<open>m\<close>
  is the message of the \<^verbatim>\<open>TypeError\<close> that the engine raises when a property of it is
  read), or a value whose \<^verbatim>\<open>news\<close> is absent (\<open>Data None\<close>) or a list of articles, as the
  service's contract has it.
\<close>

datatype ResponseData = NoData string | Data "NewsItem list option"

text \<open>
  What \<^verbatim>\<open>await axios.post\<close> yields: a response, or a rejection with an \<^verbatim>\<open>ApiError\<close>.
\<close>

datatype PostOutcome = Fulfilled ResponseData | Rejected ApiError

text \<open>
  \<^verbatim>\<open>a || b\<close> on an optional string: \<^verbatim>\<open>undefined\<close> and the empty string are both falsy.
\<close>

definition js_or :: "string option \<Rightarrow> string \<Rightarrow> string" where
  "js_or a b = (case a of None \<Rightarrow> b | Some t \<Rightarrow> if t = [] then b else t)"

text \<open>
  \<^verbatim>\<open>scrapeNews\<close> up to its \<^verbatim>\<open>await\<close>: the new state, and the \<^verbatim>\<open>url\<close> posted to
  \<^verbatim>\<open>/scrape\<close> (\<open>None\<close> when the function returns before posting).
\<close>

definition scrapeNews_submit :: "AppState \<Rightarrow> AppState \<times> string option" where
  "scrapeNews_submit s =
     (if url s = [] then (setError ''Please enter a website URL'' s, None)
      else (setNews [] (setError [] (setLoading True s)), Some (url s)))"

text \<open>
  The rest of the \<^verbatim>\<open>try\<close> block, run when the post is fulfilled. Reading
  \<^verbatim>\<open>response.data.news\<close> throws when \<^verbatim>\<open>response.data\<close> is \<^verbatim>\<open>null\<close> or \<^verbatim>\<open>undefined\<close>:
  the result is then \<open>Inl\<close> of what is thrown, a \<^verbatim>\<open>TypeError\<close>, which has a \<^verbatim>\<open>message\<close>
  and neither a \<^verbatim>\<open>response\<close> nor a \<^verbatim>\<open>request\<close>. No setter has run by then.
\<close>

definition scrapeNews_try :: "ResponseData \<Rightarrow> AppState \<Rightarrow> ApiError + AppState" where
  "scrapeNews_try d s =
     (case d of
        NoData m \<Rightarrow> Inl \<lparr>response = None, request = False, message = m\<rparr>
      | Data None \<Rightarrow>
          Inr (setError ''No news articles found. The website might use a different structure or dynamic loading.'' s)
      | Data (Some l) \<Rightarrow>
          Inr (if length l > 0 then setNews l s
               else setError ''No news articles found. The website might use a different structure or dynamic loading.'' s))"

text \<open>The \<^verbatim>\<open>catch\<close> block.\<close>

definition scrapeNews_catch :: "ApiError \<Rightarrow> AppState \<Rightarrow> AppState" where
  "scrapeNews_catch apiError s =
     (case response apiError of
        Some r \<Rightarrow>
          setError (js_or (case data r of None \<Rightarrow> None | Some d \<Rightarrow> data_error d)
                      ''Failed to scrape news. Please try a different URL.'') s
      | None \<Rightarrow>
          if request apiError
          then setError ''No response from server. Please make sure the server is running.'' s
          else setError (''Error: '' @ message apiError) s)"

text \<open>
  \<^verbatim>\<open>scrapeNews\<close> from its \<^verbatim>\<open>await\<close> on, applied to the state as it is when the promise
  settles: \<^verbatim>\<open>try\<close>, \<^verbatim>\<open>catch\<close> for a rejected post and for what \<^verbatim>\<open>try\<close> throws, then
  \<^verbatim>\<open>finally\<close>.
\<close>

definition scrapeNews_settle :: "PostOutcome \<Rightarrow> AppState \<Rightarrow> AppState" where
  "scrapeNews_settle out s =
     setLoading False
       (case out of
          Fulfilled d \<Rightarrow>
            (case scrapeNews_try d s of Inl thrown \<Rightarrow> scrapeNews_catch thrown s | Inr s' \<Rightarrow> s')
        | Rejected e \<Rightarrow> scrapeNews_catch e s)"

text \<open>One whole call of \<^verbatim>\<open>scrapeNews\<close> with nothing else happening while it awaits.\<close>

definition scrapeNews :: "PostOutcome \<Rightarrow> AppState \<Rightarrow> AppState" where
  "scrapeNews out s =
     (case scrapeNews_submit s of
        (s', None) \<Rightarrow> s'
      | (s', Some u) \<Rightarrow> scrapeNews_settle out s')"

section \<open>The user interface as a transition system\<close>

text \<open>
  The component together with its pending promises: \<open>probing\<close> says that the
  \<^verbatim>\<open>axios.get\<close> of \<^verbatim>\<open>checkServer\<close> (started once, by the mount effect) has not settled,
  \<open>inflight\<close> holds the url posted by each call of \<^verbatim>\<open>scrapeNews\<close> that is still awaiting,
  oldest first.
\<close>

record System =
  app :: AppState
  probing :: bool
  inflight :: "string list"

definition initialSystem :: System where
  "initialSystem = \<lparr>app = initialState, probing = True, inflight = []\<rparr>"

text \<open>
  What can happen to the mounted component. The controls carry the \<^verbatim>\<open>disabled\<close>
  attributes of the JSX: the url field \<^verbatim>\<open>disabled={loading}\<close>, the scrape button
  \<^verbatim>\<open>disabled={loading || !url}\<close>, the filter field and the sort select
  \<^verbatim>\<open>disabled={news.length === 0}\<close>; the cards of \<^verbatim>\<open>newsUrls\<close> call \<^verbatim>\<open>setUrl\<close>
  unconditionally, and both \<^verbatim>\<open>onClose\<close> handlers call \<^verbatim>\<open>setError('')\<close>.
  \<open>PostSettled i out\<close> settles the \<open>i\<close>-th pending post with \<open>out\<close>.
\<close>

datatype Event =
    ProbeSettled bool
  | TypeUrl string
  | PickUrl string
  | ClickScrape
  | PostSettled nat PostOutcome
  | TypeFilter string
  | PickSort SortBy
  | CloseError

definition step :: "Event \<Rightarrow> System \<Rightarrow> System" where
  "step e sys =
     (case e of
        ProbeSettled ok \<Rightarrow>
          if probing sys then sys\<lparr>app := checkServer ok (app sys), probing := False\<rparr> else sys
      | TypeUrl u \<Rightarrow>
          if loading (app sys) then sys else sys\<lparr>app := setUrl u (app sys)\<rparr>
      | PickUrl u \<Rightarrow> sys\<lparr>app := setUrl u (app sys)\<rparr>
      | ClickScrape \<Rightarrow>
          if loading (app sys) \<or> url (app sys) = [] then sys
          else (case scrapeNews_submit (app sys) of
                  (s', None) \<Rightarrow> sys\<lparr>app := s'\<rparr>
                | (s', Some u) \<Rightarrow> sys\<lparr>app := s', inflight := inflight sys @ [u]\<rparr>)
      | PostSettled i out \<Rightarrow>
          if i < length (inflight sys)
          then sys\<lparr>app := scrapeNews_settle out (app sys),
                   inflight := take i (inflight sys) @ drop (Suc i) (inflight sys)\<rparr>
          else sys
      | TypeFilter k \<Rightarrow>
          if news (app sys) = [] then sys else sys\<lparr>app := setFilterKeyword k (app sys)\<rparr>
      | PickSort k \<Rightarrow>
          if news (app sys) = [] then sys else sys\<lparr>app := setSortBy k (app sys)\<rparr>
      | CloseError \<Rightarrow> sys\<lparr>app := setError [] (app sys)\<rparr>)"

fun run :: "Event list \<Rightarrow> System \<Rightarrow> System" where
  "run [] sys = sys"
| "run (e # es) sys = run es (step e sys)"

section \<open>The derived view\<close>

subsection \<open>Strings\<close>

text \<open>
  A text is the list of the bytes of its UTF-8 form; on well-formed text a search for a
  stretch of bytes finds what a search for code units finds.
\<close>

fun startsWith :: "string \<Rightarrow> string \<Rightarrow> bool" where
  "startsWith s [] = True"
| "startsWith [] (c # t) = False"
| "startsWith (a # s) (c # t) = (a = c \<and> startsWith s t)"

text \<open>\<^verbatim>\<open>s.includes(t)\<close>: \<open>t\<close> occurs in \<open>s\<close> at some position.\<close>

fun includes_str :: "string \<Rightarrow> string \<Rightarrow> bool" where
  "includes_str [] t = (t = [])"
| "includes_str (a # s) t = (startsWith (a # s) t \<or> includes_str s t)"

text \<open>
  The predicate passed to \<^verbatim>\<open>news.filter\<close>. \<open>toLowerCase s\<close> stands for
  \<^verbatim>\<open>s.toLowerCase()\<close>, which belongs to the platform and is a parameter here: it follows
  the Unicode case mappings, which may change the length of a text and may depend on the
  neighbours of a letter.
\<close>

definition keepItem :: "(string \<Rightarrow> string) \<Rightarrow> string \<Rightarrow> NewsItem \<Rightarrow> bool" where
  "keepItem toLowerCase kw it =
     (kw = [] \<or>
      includes_str (toLowerCase (title it)) (toLowerCase kw) \<or>
      includes_str (toLowerCase (author it)) (toLowerCase kw))"

text \<open>
  The filter rule in the specification's words: the keyword is found in a text when some
  stretch of the text equals the keyword up to the case of its letters, that is, when
  the two have the same lower-case form.
\<close>

definition occursIgnoringCase :: "(string \<Rightarrow> string) \<Rightarrow> string \<Rightarrow> string \<Rightarrow> bool" where
  "occursIgnoringCase toLowerCase k s =
     (\<exists>p t q. s = p @ t @ q \<and> toLowerCase t = toLowerCase k)"

definition retainedBySpec :: "(string \<Rightarrow> string) \<Rightarrow> string \<Rightarrow> NewsItem \<Rightarrow> bool" where
  "retainedBySpec toLowerCase kw it =
     (kw = [] \<or> occursIgnoringCase toLowerCase kw (title it) \<or>
      occursIgnoringCase toLowerCase kw (author it))"

subsection \<open>Sorting\<close>

text \<open>
  The comparator passed to \<^verbatim>\<open>sort\<close>. Its result is a number or \<^verbatim>\<open>NaN\<close> (\<open>None\<close>).
  \<open>getTime d\<close> stands for \<^verbatim>\<open>new Date(d).getTime()\<close>, which is an integral number of
  milliseconds or \<^verbatim>\<open>NaN\<close>; \<open>localeCompare a b\<close> stands for \<^verbatim>\<open>a.localeCompare(b)\<close>.
  Both belong to the platform and are parameters here. A difference of two time values
  keeps its sign in floating point, so it is taken over the integers.
\<close>

definition compareItems ::
  "(string \<Rightarrow> int option) \<Rightarrow> (string \<Rightarrow> string \<Rightarrow> int) \<Rightarrow> SortBy \<Rightarrow>
   NewsItem \<Rightarrow> NewsItem \<Rightarrow> int option" where
  "compareItems getTime localeCompare key a b =
     (if key = SortDate
      then (case getTime (date b) of
              None \<Rightarrow> None
            | Some tb \<Rightarrow> (case getTime (date a) of None \<Rightarrow> None | Some ta \<Rightarrow> Some (tb - ta)))
      else Some (localeCompare (title a) (title b)))"

text \<open>
  \<^verbatim>\<open>Array.prototype.sort\<close> with a comparator. ECMAScript reads a \<^verbatim>\<open>NaN\<close> result as
  \<open>+0\<close> and asks for a stable sort; a stable insertion sort is taken for it, in which
  an element moves behind exactly the elements it compares greater than.
\<close>

definition sortCompare :: "('a \<Rightarrow> 'a \<Rightarrow> int option) \<Rightarrow> 'a \<Rightarrow> 'a \<Rightarrow> int" where
  "sortCompare comparefn x y = (case comparefn x y of None \<Rightarrow> 0 | Some v \<Rightarrow> v)"

fun sortInsert :: "('a \<Rightarrow> 'a \<Rightarrow> int option) \<Rightarrow> 'a \<Rightarrow> 'a list \<Rightarrow> 'a list" where
  "sortInsert comparefn x [] = [x]"
| "sortInsert comparefn x (y # ys) =
     (if sortCompare comparefn x y > 0 then y # sortInsert comparefn x ys else x # y # ys)"

fun arraySort :: "('a \<Rightarrow> 'a \<Rightarrow> int option) \<Rightarrow> 'a list \<Rightarrow> 'a list" where
  "arraySort comparefn [] = []"
| "arraySort comparefn (x # xs) = sortInsert comparefn x (arraySort comparefn xs)"

definition filteredAndSortedNews ::
  "(string \<Rightarrow> string) \<Rightarrow> (string \<Rightarrow> int option) \<Rightarrow> (string \<Rightarrow> string \<Rightarrow> int) \<Rightarrow>
   NewsItem list \<Rightarrow> string \<Rightarrow> SortBy \<Rightarrow> NewsItem list" where
  "filteredAndSortedNews toLowerCase getTime localeCompare items kw key =
     arraySort (compareItems getTime localeCompare key) (filter (keepItem toLowerCase kw) items)"

subsection \<open>Instances of the platform functions\<close>

text \<open>
  \<^verbatim>\<open>new Date(d).getTime()\<close> for the date-only form \<open>YYYY-MM-DD\<close> of the ECMAScript date
  time string format, read as UTC midnight of a day of the calendar; any other text
  counts as unparseable in this instance.
\<close>

definition digitVal :: "char \<Rightarrow> int option" where
  "digitVal c =
     (if 48 \<le> (of_char c :: nat) \<and> (of_char c :: nat) \<le> 57
      then Some (int (of_char c) - 48) else None)"

fun decimal :: "int \<Rightarrow> string \<Rightarrow> int option" where
  "decimal acc [] = Some acc"
| "decimal acc (c # cs) =
     (case digitVal c of None \<Rightarrow> None | Some v \<Rightarrow> decimal (10 * acc + v) cs)"

definition inLeapYear :: "int \<Rightarrow> bool" where
  "inLeapYear y = (y mod 4 = 0 \<and> (y mod 100 \<noteq> 0 \<or> y mod 400 = 0))"

definition monthLengths :: "int \<Rightarrow> int list" where
  "monthLengths y = [31, if inLeapYear y then 29 else 28, 31, 30, 31, 30, 31, 31, 30, 31, 30, 31]"

definition dayFromYear :: "int \<Rightarrow> int" where
  "dayFromYear y =
     365 * (y - 1970) + (y - 1969) div 4 - (y - 1901) div 100 + (y - 1601) div 400"

definition isoDateGetTime :: "string \<Rightarrow> int option" where
  "isoDateGetTime s =
     (if length s = 10 \<and> s ! 4 = CHR ''-'' \<and> s ! 7 = CHR ''-''
      then (case (decimal 0 (take 4 s), decimal 0 (take 2 (drop 5 s)), decimal 0 (drop 8 s)) of
              (Some y, Some m, Some d) \<Rightarrow>
                if 1 \<le> m \<and> m \<le> 12 \<and> 1 \<le> d \<and> d \<le> monthLengths y ! nat (m - 1)
                then Some ((dayFromYear y + sum_list (take (nat (m - 1)) (monthLengths y)) + d - 1)
                             * 86400000)
                else None
            | _ \<Rightarrow> None)
      else None)"

text \<open>
  \<^verbatim>\<open>toLowerCase\<close> on ASCII text: \<open>A\<close> to \<open>Z\<close> move to \<open>a\<close> to \<open>z\<close>, every other
  character stays.
\<close>

definition asciiLowerChar :: "char \<Rightarrow> char" where
  "asciiLowerChar c =
     (case map_of (zip ''ABCDEFGHIJKLMNOPQRSTUVWXYZ'' ''abcdefghijklmnopqrstuvwxyz'') c of
        None \<Rightarrow> c
      | Some l \<Rightarrow> l)"

definition asciiToLowerCase :: "string \<Rightarrow> string" where
  "asciiToLowerCase s = map asciiLowerChar s"

definition isAscii :: "string \<Rightarrow> bool" where
  "isAscii s = list_all (\<lambda>c. (of_char c :: nat) < 128) s"

text \<open>
  \<^verbatim>\<open>toLowerCase\<close> on text of ASCII and Greek letters. A Greek capital is the byte \<open>CE\<close>
  and a byte from \<open>91\<close> to \<open>A9\<close>; its small letter is \<open>CE\<close> or \<open>CF\<close> and the byte
  tabled below. Capital sigma (\<open>CE A3\<close>) becomes the final small sigma (\<open>CF 82\<close>) when a
  cased letter stands before it and none after it, and the small sigma (\<open>CF 83\<close>)
  otherwise, as the Unicode special casing has it. Other bytes stay as they are in this
  instance.
\<close>

definition isAsciiLetter :: "char \<Rightarrow> bool" where
  "isAsciiLetter c =
     (c \<in> set ''ABCDEFGHIJKLMNOPQRSTUVWXYZabcdefghijklmnopqrstuvwxyz'')"

definition greekSmallOf :: "(char \<times> string) list" where
  "greekSmallOf =
     [(CHR 0x91, [CHR 0xCE, CHR 0xB1]), (CHR 0x92, [CHR 0xCE, CHR 0xB2]),
      (CHR 0x93, [CHR 0xCE, CHR 0xB3]), (CHR 0x94, [CHR 0xCE, CHR 0xB4]),
      (CHR 0x95, [CHR 0xCE, CHR 0xB5]), (CHR 0x96, [CHR 0xCE, CHR 0xB6]),
      (CHR 0x97, [CHR 0xCE, CHR 0xB7]), (CHR 0x98, [CHR 0xCE, CHR 0xB8]),
      (CHR 0x99, [CHR 0xCE, CHR 0xB9]), (CHR 0x9A, [CHR 0xCE, CHR 0xBA]),
      (CHR 0x9B, [CHR 0xCE, CHR 0xBB]), (CHR 0x9C, [CHR 0xCE, CHR 0xBC]),
      (CHR 0x9D, [CHR 0xCE, CHR 0xBD]), (CHR 0x9E, [CHR 0xCE, CHR 0xBE]),
      (CHR 0x9F, [CHR 0xCE, CHR 0xBF]), (CHR 0xA0, [CHR 0xCF, CHR 0x80]),
      (CHR 0xA1, [CHR 0xCF, CHR 0x81]), (CHR 0xA4, [CHR 0xCF, CHR 0x84]),
      (CHR 0xA5, [CHR 0xCF, CHR 0x85]), (CHR 0xA6, [CHR 0xCF, CHR 0x86]),
      (CHR 0xA7, [CHR 0xCF, CHR 0x87]), (CHR 0xA8, [CHR 0xCF, CHR 0x88]),
      (CHR 0xA9, [CHR 0xCF, CHR 0x89])]"

definition isGreekLetter :: "char \<Rightarrow> char \<Rightarrow> bool" where
  "isGreekLetter c d =
     (c = CHR 0xCE \<and> (d = CHR 0xA3 \<or> d \<in> fst ` set greekSmallOf) \<or>
      [c, d] = [CHR 0xCF, CHR 0x82] \<or> [c, d] = [CHR 0xCF, CHR 0x83] \<or>
      [c, d] \<in> snd ` set greekSmallOf)"

fun startsCased :: "string \<Rightarrow> bool" where
  "startsCased [] = False"
| "startsCased [c] = isAsciiLetter c"
| "startsCased (c # d # s) = (isAsciiLetter c \<or> isGreekLetter c d)"

fun lowerFrom :: "bool \<Rightarrow> string \<Rightarrow> string" where
  "lowerFrom cased [] = []"
| "lowerFrom cased [c] = [asciiLowerChar c]"
| "lowerFrom cased (c # d # s) =
     (if c = CHR 0xCE \<and> d = CHR 0xA3
      then (if cased \<and> \<not> startsCased s then [CHR 0xCF, CHR 0x82] else [CHR 0xCF, CHR 0x83])
           @ lowerFrom True s
      else if isGreekLetter c d
      then (case map_of greekSmallOf d of
              Some small \<Rightarrow> if c = CHR 0xCE then small else [c, d]
            | None \<Rightarrow> [c, d])
           @ lowerFrom True s
      else asciiLowerChar c # lowerFrom (isAsciiLetter c) (d # s))"

definition greekToLowerCase :: "string \<Rightarrow> string" where
  "greekToLowerCase s = lowerFrom False s"

text \<open>
  A comparer for \<^verbatim>\<open>localeCompare\<close> on ASCII text: the order of the lower-cased texts,
  letter by letter.
\<close>

definition asciiLocaleCompare :: "string \<Rightarrow> string \<Rightarrow> int" where
  "asciiLocaleCompare a b =
     (let ka = map of_char (asciiToLowerCase a) :: nat list;
          kb = map of_char (asciiToLowerCase b) :: nat list
      in if ka < kb then - 1 else if kb < ka then 1 else 0)"

definition item :: "string \<Rightarrow> string \<Rightarrow> string \<Rightarrow> NewsItem" where
  "item t a d =
     \<lparr>title = t, author = a, date = d, source = ''Manila Bulletin'',
      item_url = ''https://mb.com.ph/'', imageUrl = None\<rparr>"

lemmas setters =
  setUrl_def setNews_def setLoading_def setFilterKeyword_def setSortBy_def setError_def
  setServerStatus_def

lemmas scrape_defs =
  scrapeNews_def scrapeNews_submit_def scrapeNews_settle_def scrapeNews_try_def
  scrapeNews_catch_def js_or_def

lemmas view_defs =
  filteredAndSortedNews_def keepItem_def item_def compareItems_def sortCompare_def
  asciiToLowerCase_def asciiLowerChar_def

lemmas date_defs =
  isoDateGetTime_def digitVal_def monthLengths_def dayFromYear_def inLeapYear_def

section \<open>Facts about strings and sorting\<close>

lemma startsWith_iff: "startsWith s t \<longleftrightarrow> (\<exists>q. s = t @ q)"
  by (induction s t rule: startsWith.induct) auto

lemma includes_str_iff: "includes_str s t \<longleftrightarrow> (\<exists>p q. s = p @ t @ q)"
proof (induction s)
  case Nil
  then show ?case by auto
next
  case (Cons a s)
  show ?case
  proof
    assume "includes_str (a # s) t"
    then consider "startsWith (a # s) t" | "includes_str s t" by auto
    then show "\<exists>p q. a # s = p @ t @ q"
    proof cases
      case 1
      then obtain q where "a # s = t @ q" by (auto simp: startsWith_iff)
      then have "a # s = [] @ t @ q" by simp
      then show ?thesis by blast
    next
      case 2
      then obtain p q where "s = p @ t @ q" using Cons.IH by blast
      then have "a # s = (a # p) @ t @ q" by simp
      then show ?thesis by blast
    qed
  next
    assume "\<exists>p q. a # s = p @ t @ q"
    then obtain p q where pq: "a # s = p @ t @ q" by blast
    show "includes_str (a # s) t"
    proof (cases p)
      case Nil
      with pq have "startsWith (a # s) t" by (auto simp: startsWith_iff)
      then show ?thesis by simp
    next
      case (Cons b p')
      with pq have "s = p' @ t @ q" by simp
      then have "includes_str s t" using Cons.IH by blast
      then show ?thesis by simp
    qed
  qed
qed

lemma isAscii_append: "isAscii (p @ q) = (isAscii p \<and> isAscii q)"
  by (simp add: isAscii_def)

lemma isAscii_take: "isAscii s \<Longrightarrow> isAscii (take n s)"
  by (auto simp: isAscii_def list_all_iff dest: in_set_takeD)

lemma isAscii_drop: "isAscii s \<Longrightarrow> isAscii (drop n s)"
  by (auto simp: isAscii_def list_all_iff dest: in_set_dropD)

lemma occursIgnoringCase_iff:
  assumes ascii: "\<And>s. isAscii s \<Longrightarrow> toLowerCase s = asciiToLowerCase s"
    and k: "isAscii k" and s: "isAscii s"
  shows "occursIgnoringCase toLowerCase k s \<longleftrightarrow> includes_str (toLowerCase s) (toLowerCase k)"
proof
  assume "occursIgnoringCase toLowerCase k s"
  then obtain p t q where split: "s = p @ t @ q" and same: "toLowerCase t = toLowerCase k"
    by (auto simp: occursIgnoringCase_def)
  have "isAscii p" "isAscii t" "isAscii q"
    using s split by (simp_all add: isAscii_append)
  then have "asciiToLowerCase s = asciiToLowerCase p @ toLowerCase t @ asciiToLowerCase q"
    using split by (simp add: ascii asciiToLowerCase_def)
  then have "toLowerCase s = asciiToLowerCase p @ toLowerCase k @ asciiToLowerCase q"
    using same by (simp add: ascii[OF s])
  then show "includes_str (toLowerCase s) (toLowerCase k)"
    unfolding includes_str_iff by blast
next
  assume "includes_str (toLowerCase s) (toLowerCase k)"
  then obtain p q where pq: "map asciiLowerChar s = p @ map asciiLowerChar k @ q"
    unfolding includes_str_iff ascii[OF s] ascii[OF k] asciiToLowerCase_def by blast
  define n where "n = length p"
  define m where "m = length k"
  define t where "t = take m (drop n s)"
  have "s = take n s @ t @ drop m (drop n s)"
    unfolding t_def by (simp only: append_take_drop_id)
  moreover have "toLowerCase t = toLowerCase k"
  proof -
    have "isAscii t" unfolding t_def using s by (simp add: isAscii_take isAscii_drop)
    then have "toLowerCase t = map asciiLowerChar t" by (simp add: ascii asciiToLowerCase_def)
    also have "\<dots> = take m (drop n (map asciiLowerChar s))"
      unfolding t_def by (simp add: take_map drop_map)
    also have "\<dots> = map asciiLowerChar k" unfolding pq n_def m_def by simp
    also have "\<dots> = toLowerCase k" by (simp add: ascii[OF k] asciiToLowerCase_def)
    finally show ?thesis .
  qed
  ultimately show "occursIgnoringCase toLowerCase k s"
    unfolding occursIgnoringCase_def by blast
qed

lemma mset_sortInsert: "mset (sortInsert c x ys) = add_mset x (mset ys)"
  by (induction ys) auto

lemma mset_arraySort: "mset (arraySort c xs) = mset xs"
  by (induction xs) (auto simp: mset_sortInsert)

lemma set_sortInsert: "set (sortInsert c x ys) = insert x (set ys)"
  by (induction ys) auto

lemma set_arraySort: "set (arraySort c xs) = set xs"
  by (induction xs) (auto simp: set_sortInsert)

lemma sorted_sortInsert:
  assumes tot: "\<And>y. y \<in> set ys \<Longrightarrow> sortCompare c x y > 0 \<Longrightarrow> sortCompare c y x \<le> 0"
    and tr: "\<And>y z. y \<in> set ys \<Longrightarrow> z \<in> set ys \<Longrightarrow> sortCompare c x y \<le> 0 \<Longrightarrow> sortCompare c y z \<le> 0 \<Longrightarrow> sortCompare c x z \<le> 0"
    and srt: "sorted_wrt (\<lambda>a b. sortCompare c a b \<le> 0) ys"
  shows "sorted_wrt (\<lambda>a b. sortCompare c a b \<le> 0) (sortInsert c x ys)"
  using assms
proof (induction ys)
  case Nil
  show ?case by simp
next
  case (Cons y ys)
  show ?case
  proof (cases "sortCompare c x y > 0")
    case True
    have "sorted_wrt (\<lambda>a b. sortCompare c a b \<le> 0) (sortInsert c x ys)"
      using Cons by auto
    moreover have "\<forall>z \<in> set (sortInsert c x ys). sortCompare c y z \<le> 0"
      using Cons.prems True by (auto simp: set_sortInsert)
    ultimately show ?thesis using True by simp
  next
    case False
    then have xy: "sortCompare c x y \<le> 0" by simp
    have "\<forall>z \<in> set ys. sortCompare c x z \<le> 0"
      using Cons.prems(2)[of y] Cons.prems(3) xy by auto
    then show ?thesis using False xy Cons.prems(3) by simp
  qed
qed

lemma sorted_arraySort:
  assumes tot: "\<And>x y. x \<in> set xs \<Longrightarrow> y \<in> set xs \<Longrightarrow> sortCompare c x y > 0 \<Longrightarrow> sortCompare c y x \<le> 0"
    and tr: "\<And>x y z. x \<in> set xs \<Longrightarrow> y \<in> set xs \<Longrightarrow> z \<in> set xs \<Longrightarrow>
               sortCompare c x y \<le> 0 \<Longrightarrow> sortCompare c y z \<le> 0 \<Longrightarrow> sortCompare c x z \<le> 0"
  shows "sorted_wrt (\<lambda>a b. sortCompare c a b \<le> 0) (arraySort c xs)"
  using assms
proof (induction xs)
  case Nil
  show ?case by simp
next
  case (Cons x xs)
  have IH: "sorted_wrt (\<lambda>a b. sortCompare c a b \<le> 0) (arraySort c xs)"
  proof (rule Cons.IH)
    fix a b assume "a \<in> set xs" "b \<in> set xs" "0 < sortCompare c a b"
    then show "sortCompare c b a \<le> 0"
      using Cons.prems(1)[of a b] by simp
  next
    fix a b d
    assume "a \<in> set xs" "b \<in> set xs" "d \<in> set xs"
      "sortCompare c a b \<le> 0" "sortCompare c b d \<le> 0"
    then show "sortCompare c a d \<le> 0"
      using Cons.prems(2)[of a b d] by simp
  qed
  have tot': "sortCompare c y x \<le> 0" if "y \<in> set (arraySort c xs)" "0 < sortCompare c x y" for y
    using Cons.prems(1)[of x y] that by (simp add: set_arraySort)
  have tr': "sortCompare c x z \<le> 0"
    if "y \<in> set (arraySort c xs)" "z \<in> set (arraySort c xs)"
      "sortCompare c x y \<le> 0" "sortCompare c y z \<le> 0" for y z
    using Cons.prems(2)[of x y z] that by (simp add: set_arraySort)
  have "sorted_wrt (\<lambda>a b. sortCompare c a b \<le> 0) (sortInsert c x (arraySort c xs))"
    using tot' tr' IH by (rule sorted_sortInsert)
  then show ?case by simp
qed

lemma arraySort_all_equal:
  "(\<And>x y. x \<in> set xs \<Longrightarrow> y \<in> set xs \<Longrightarrow> sortCompare c x y \<le> 0) \<Longrightarrow> arraySort c xs = xs"
proof (induction xs)
  case Nil
  show ?case by simp
next
  case (Cons x xs)
  have eq: "arraySort c xs = xs"
  proof (rule Cons.IH)
    fix a b assume "a \<in> set xs" "b \<in> set xs"
    then show "sortCompare c a b \<le> 0" using Cons.prems[of a b] by simp
  qed
  show ?case
  proof (cases xs)
    case Nil
    then show ?thesis by simp
  next
    case (Cons y ys)
    have "\<not> sortCompare c x y > 0" using Cons.prems[of x y] Cons by simp
    then show ?thesis using eq Cons by simp
  qed
qed

lemma sortCompare_date:
  "getTime (date a) = Some ta \<Longrightarrow> getTime (date b) = Some tb \<Longrightarrow>
   sortCompare (compareItems getTime lc SortDate) a b = tb - ta"
  by (simp add: sortCompare_def compareItems_def)

lemma sortCompare_title:
  "sortCompare (compareItems getTime lc SortTitle) a b = lc (title a) (title b)"
  by (simp add: sortCompare_def compareItems_def)

lemma sortCompare_NaN:
  "getTime (date a) = None \<or> getTime (date b) = None \<Longrightarrow>
   sortCompare (compareItems getTime lc SortDate) a b = 0"
  by (auto simp: sortCompare_def compareItems_def split: option.splits)

lemma date_sorted:
  assumes "\<And>a. a \<in> set xs \<Longrightarrow> getTime (date a) \<noteq> None"
  shows "sorted_wrt (\<lambda>a b. the (getTime (date b)) \<le> the (getTime (date a)))
           (arraySort (compareItems getTime lc SortDate) xs)"
proof -
  have cmp: "sortCompare (compareItems getTime lc SortDate) a b
               = the (getTime (date b)) - the (getTime (date a))"
    if "a \<in> set xs" "b \<in> set xs" for a b
    using assms[OF that(1)] assms[OF that(2)] by (auto simp: sortCompare_date)
  have "sorted_wrt (\<lambda>a b. sortCompare (compareItems getTime lc SortDate) a b \<le> 0)
          (arraySort (compareItems getTime lc SortDate) xs)"
    by (rule sorted_arraySort) (simp_all add: cmp)
  then show ?thesis
    by (rule sorted_wrt_mono_rel[rotated]) (simp add: cmp set_arraySort)
qed

lemma title_sorted:
  assumes anti: "\<And>a b. 0 < lc a b \<Longrightarrow> lc b a \<le> 0"
    and tr: "\<And>a b c. lc a b \<le> 0 \<Longrightarrow> lc b c \<le> 0 \<Longrightarrow> lc a c \<le> 0"
  shows "sorted_wrt (\<lambda>a b. lc (title a) (title b) \<le> 0)
           (arraySort (compareItems getTime lc SortTitle) xs)"
proof -
  have "sorted_wrt (\<lambda>a b. sortCompare (compareItems getTime lc SortTitle) a b \<le> 0)
          (arraySort (compareItems getTime lc SortTitle) xs)"
  proof (rule sorted_arraySort)
    fix x y :: NewsItem
    assume "0 < sortCompare (compareItems getTime lc SortTitle) x y"
    then show "sortCompare (compareItems getTime lc SortTitle) y x \<le> 0"
      using anti[of "title x" "title y"] by (simp add: sortCompare_title)
  next
    fix x y z :: NewsItem
    assume "sortCompare (compareItems getTime lc SortTitle) x y \<le> 0"
      "sortCompare (compareItems getTime lc SortTitle) y z \<le> 0"
    then show "sortCompare (compareItems getTime lc SortTitle) x z \<le> 0"
      using tr[of "title x" "title y" "title z"] by (simp add: sortCompare_title)
  qed
  then show ?thesis by (simp add: sortCompare_title)
qed

lemma asciiLocaleCompare_sign: "(asciiLocaleCompare a b < 0) = (0 < asciiLocaleCompare b a)"
  by (auto simp: asciiLocaleCompare_def Let_def split: if_splits)

lemma asciiLocaleCompare_trans:
  "asciiLocaleCompare a b \<le> 0 \<Longrightarrow> asciiLocaleCompare b c \<le> 0 \<Longrightarrow> asciiLocaleCompare a c \<le> 0"
  by (auto simp: asciiLocaleCompare_def Let_def split: if_splits)

lemma keepItem_iff_retainedBySpec:
  assumes "\<And>s. isAscii s \<Longrightarrow> toLowerCase s = asciiToLowerCase s"
    and "isAscii kw" and "isAscii (title it)" and "isAscii (author it)"
  shows "keepItem toLowerCase kw it = retainedBySpec toLowerCase kw it"
  using assms by (simp add: keepItem_def retainedBySpec_def occursIgnoringCase_iff)

lemma lowerFrom_ascii: "isAscii s \<Longrightarrow> lowerFrom cased s = asciiToLowerCase s"
proof (induction cased s rule: lowerFrom.induct)
  case (1 cased)
  show ?case by (simp add: asciiToLowerCase_def)
next
  case (2 cased c)
  show ?case by (simp add: asciiToLowerCase_def)
next
  case (3 cased c d s)
  from "3.prems" have c: "(of_char c :: nat) < 128" and rest: "isAscii (d # s)"
    by (simp_all add: isAscii_def)
  from c have nc: "c \<noteq> CHR 0xCE" "c \<noteq> CHR 0xCF" by auto
  then have ng: "\<not> isGreekLetter c d"
    by (auto simp: isGreekLetter_def greekSmallOf_def)
  have "lowerFrom (isAsciiLetter c) (d # s) = asciiToLowerCase (d # s)"
    using "3.IH"(3) nc ng rest by simp
  then show ?case using nc ng by (simp add: asciiToLowerCase_def)
qed

lemma greekToLowerCase_ascii: "isAscii s \<Longrightarrow> greekToLowerCase s = asciiToLowerCase s"
  by (simp add: greekToLowerCase_def lowerFrom_ascii)

section \<open>Facts about the transition system\<close>

lemma inflight_invariant_step:
  "length (inflight sys) \<le> 1 \<Longrightarrow> loading (app sys) = (inflight sys \<noteq> []) \<Longrightarrow>
   (loading (app sys) \<longrightarrow> news (app sys) = []) \<Longrightarrow>
   length (inflight (step e sys)) \<le> 1 \<and>
   loading (app (step e sys)) = (inflight (step e sys) \<noteq> []) \<and>
   (loading (app (step e sys)) \<longrightarrow> news (app (step e sys)) = [])"
  by (cases e)
     (auto simp: step_def checkServer_def scrapeNews_submit_def scrapeNews_settle_def setters
           split: if_splits)

lemma inflight_invariant_run:
  "length (inflight sys) \<le> 1 \<Longrightarrow> loading (app sys) = (inflight sys \<noteq> []) \<Longrightarrow>
   (loading (app sys) \<longrightarrow> news (app sys) = []) \<Longrightarrow>
   length (inflight (run es sys)) \<le> 1 \<and>
   loading (app (run es sys)) = (inflight (run es sys) \<noteq> []) \<and>
   (loading (app (run es sys)) \<longrightarrow> news (app (run es sys)) = [])"
proof (induction es arbitrary: sys)
  case Nil
  then show ?case by simp
next
  case (Cons e es)
  from inflight_invariant_step[OF Cons.prems, of e]
  show ?case using Cons.IH[of "step e sys"] by simp
qed

lemma inflight_invariant_initial:
  "length (inflight (run es initialSystem)) \<le> 1 \<and>
   loading (app (run es initialSystem)) = (inflight (run es initialSystem) \<noteq> []) \<and>
   (loading (app (run es initialSystem)) \<longrightarrow> news (app (run es initialSystem)) = [])"
  by (rule inflight_invariant_run) (simp_all add: initialSystem_def initialState_def)

lemma serverStatus_scrapeNews_catch: "serverStatus (scrapeNews_catch e s) = serverStatus s"
  by (simp add: scrapeNews_catch_def setters split: option.splits)

lemma serverStatus_scrapeNews_settle: "serverStatus (scrapeNews_settle out s) = serverStatus s"
  by (cases out)
     (auto simp: scrapeNews_settle_def scrapeNews_try_def setLoading_def setNews_def setError_def
        serverStatus_scrapeNews_catch split: ResponseData.splits option.splits)

lemma serverStatus_scrapeNews_submit: "serverStatus (fst (scrapeNews_submit s)) = serverStatus s"
  by (simp add: scrapeNews_submit_def setters)

lemma serverStatus_step:
  "\<not> probing sys \<Longrightarrow>
   \<not> probing (step e sys) \<and> serverStatus (app (step e sys)) = serverStatus (app sys)"
  by (cases e)
     (auto simp: step_def serverStatus_scrapeNews_settle scrapeNews_submit_def setters
           split: if_splits)

lemma serverStatus_run:
  "\<not> probing sys \<Longrightarrow>
   \<not> probing (run es sys) \<and> serverStatus (app (run es sys)) = serverStatus (app sys)"
proof (induction es arbitrary: sys)
  case Nil
  then show ?case by simp
next
  case (Cons e es)
  from serverStatus_step[OF Cons.prems, of e]
  show ?case using Cons.IH[of "step e sys"] by simp
qed

lemma probing_step:
  "probing sys = (serverStatus (app sys) = Checking) \<Longrightarrow>
   probing (step e sys) = (serverStatus (app (step e sys)) = Checking)"
  by (cases e)
     (auto simp: step_def checkServer_def serverStatus_scrapeNews_settle scrapeNews_submit_def setters
           split: if_splits)

lemma probing_run:
  "probing sys = (serverStatus (app sys) = Checking) \<Longrightarrow>
   probing (run es sys) = (serverStatus (app (run es sys)) = Checking)"
proof (induction es arbitrary: sys)
  case Nil
  then show ?case by simp
next
  case (Cons e es)
  from probing_step[OF Cons.prems, of e]
  show ?case using Cons.IH[of "step e sys"] by simp
qed

lemma scrapeNews_after_scrapeNews:
  "urlB \<noteq> [] \<Longrightarrow>
   scrapeNews outB (setUrl urlB (scrapeNews outA (setUrl urlA s))) = scrapeNews outB (setUrl urlB s)"
  by (cases outA; cases outB)
     (auto simp: scrape_defs setters split: ResponseData.splits option.splits)

lemma click_while_loading: "loading (app sys) \<Longrightarrow> step ClickScrape sys = sys"
  by (simp add: step_def)

lemma two_scrapes_through_the_buttons:
  assumes idle: "\<not> loading (app sys)" "inflight sys = []"
    and urls: "urlA \<noteq> []" "urlB \<noteq> []"
  shows "app (run [PickUrl urlA, ClickScrape, PostSettled 0 outA,
                   PickUrl urlB, ClickScrape, PostSettled 0 outB] sys)
           = scrapeNews outB (setUrl urlB (scrapeNews outA (setUrl urlA (app sys))))"
proof -
  have one: "app (run [PickUrl u, ClickScrape, PostSettled 0 out] sys') = scrapeNews out (setUrl u (app sys'))
      \<and> inflight (run [PickUrl u, ClickScrape, PostSettled 0 out] sys') = []"
    if "\<not> loading (app sys')" "inflight sys' = []" "u \<noteq> []" for u out sys'
    using that by (simp add: step_def scrapeNews_def scrapeNews_submit_def setters)
  have idle': "\<not> loading (scrapeNews outA (setUrl urlA (app sys)))"
    using urls(1) by (simp add: scrapeNews_def scrapeNews_submit_def scrapeNews_settle_def setters)
  have "run [PickUrl urlA, ClickScrape, PostSettled 0 outA, PickUrl urlB, ClickScrape, PostSettled 0 outB] sys
      = run [PickUrl urlB, ClickScrape, PostSettled 0 outB]
          (run [PickUrl urlA, ClickScrape, PostSettled 0 outA] sys)"
    by simp
  then show ?thesis
    using one[OF idle urls(1), of outA] idle' urls(2)
      one[of "run [PickUrl urlA, ClickScrape, PostSettled 0 outA] sys" urlB outB]
    by (simp del: run.simps)
qed

section \<open>The claims about the scrape request\<close>

text \<open>
  C2 as worded fails on a url of white space. The state has one article and the url
  \<open>'' ''\<close>: the test \<^verbatim>\<open>!url\<close> lets it pass, so the url is posted, \<open>loading\<close> is raised,
  the article list is emptied and no validation message is set.
\<close>

theorem scrapeNews_whitespace_url_counterexample:
  "snd (scrapeNews_submit (setUrl '' '' (setNews [item ''Flood'' ''Ana'' ''2024-01-10''] initialState)))
     = Some '' '' \<and>
   loading (fst (scrapeNews_submit (setUrl '' '' (setNews [item ''Flood'' ''Ana'' ''2024-01-10''] initialState))))
     = True \<and>
   news (fst (scrapeNews_submit (setUrl '' '' (setNews [item ''Flood'' ''Ana'' ''2024-01-10''] initialState))))
     = [] \<and>
   error (fst (scrapeNews_submit (setUrl '' '' (setNews [item ''Flood'' ''Ana'' ''2024-01-10''] initialState))))
     = []"
  by (simp add: scrapeNews_submit_def setters initialState_def)

text \<open>
  C2, amended. For the empty url \<^verbatim>\<open>scrapeNews\<close> returns at once: the only change is the
  message \<open>Please enter a website URL\<close>, nothing is posted, and \<open>loading\<close> and the article
  list are as before. Every non-empty url, one of white space included, is posted and
  raises \<open>loading\<close>.
\<close>

theorem scrapeNews_empty_url:
  "(url s = [] \<longrightarrow>
      scrapeNews_submit s = (s\<lparr>error := ''Please enter a website URL''\<rparr>, None) \<and>
      scrapeNews out s = s\<lparr>error := ''Please enter a website URL''\<rparr>) \<and>
   (url s \<noteq> [] \<longrightarrow>
      snd (scrapeNews_submit s) = Some (url s) \<and> loading (fst (scrapeNews_submit s)))"
  by (simp add: scrapeNews_def scrapeNews_submit_def setters)

theorem scrapeNews_empty_url_witness:
  "url initialState = [] \<and>
   scrapeNews_submit initialState = (initialState\<lparr>error := ''Please enter a website URL''\<rparr>, None) \<and>
   url (setUrl '' '' initialState) \<noteq> [] \<and>
   snd (scrapeNews_submit (setUrl '' '' initialState)) = Some '' ''"
  using scrapeNews_empty_url [of initialState "Fulfilled (Data None)"]
    scrapeNews_empty_url [of "setUrl '' '' initialState" "Fulfilled (Data None)"]
  by (simp add: initialState_def setUrl_def)

text \<open>
  C4. When the post is rejected, the message is chosen in this order: (a) a response was
  received: the \<^verbatim>\<open>error\<close> text of its body, or \<open>Failed to scrape news. Please try a
  different URL.\<close> when the body, or the text, is missing or empty (an empty text is
  falsy for \<^verbatim>\<open>||\<close>, and an empty message is how this component says "no error");
  (b) no response but a request: \<open>No response from server. Please make sure the server
  is running.\<close>; (c) neither: \<open>Error: \<close> followed by the failure's own message.
\<close>

theorem scrapeNews_error_precedence:
  "url s \<noteq> [] \<Longrightarrow>
   (response e = Some r \<and> data r = Some d \<and> data_error d = Some t \<and> t \<noteq> [] \<longrightarrow>
      error (scrapeNews (Rejected e) s) = t) \<and>
   (response e = Some r \<and>
      (data r = None \<or> data r = Some d \<and> (data_error d = None \<or> data_error d = Some [])) \<longrightarrow>
      error (scrapeNews (Rejected e) s) = ''Failed to scrape news. Please try a different URL.'') \<and>
   (response e = None \<and> request e \<longrightarrow>
      error (scrapeNews (Rejected e) s) =
        ''No response from server. Please make sure the server is running.'') \<and>
   (response e = None \<and> \<not> request e \<longrightarrow>
      error (scrapeNews (Rejected e) s) = ''Error: '' @ message e)"
  by (auto simp: scrape_defs setters)

theorem scrapeNews_error_precedence_witness:
  "error (scrapeNews
      (Rejected \<lparr>response = Some \<lparr>data = Some \<lparr>data_error = Some ''Unsupported site''\<rparr>\<rparr>,
                 request = True, message = ''Request failed with status code 500''\<rparr>)
      (setUrl ''https://mb.com.ph/'' initialState)) = ''Unsupported site'' \<and>
   error (scrapeNews
      (Rejected \<lparr>response = Some \<lparr>data = None\<rparr>, request = True,
                 message = ''Request failed with status code 502''\<rparr>)
      (setUrl ''https://mb.com.ph/'' initialState)) =
     ''Failed to scrape news. Please try a different URL.'' \<and>
   error (scrapeNews
      (Rejected \<lparr>response = None, request = True, message = ''Network Error''\<rparr>)
      (setUrl ''https://mb.com.ph/'' initialState)) =
     ''No response from server. Please make sure the server is running.'' \<and>
   error (scrapeNews
      (Rejected \<lparr>response = None, request = False, message = ''Invalid URL''\<rparr>)
      (setUrl ''https://mb.com.ph/'' initialState)) = ''Error: Invalid URL''"
  using
    scrapeNews_error_precedence
      [where s = "setUrl ''https://mb.com.ph/'' initialState"
         and e = "\<lparr>response = Some \<lparr>data = Some \<lparr>data_error = Some ''Unsupported site''\<rparr>\<rparr>,
            request = True, message = ''Request failed with status code 500''\<rparr>"
         and r = "\<lparr>data = Some \<lparr>data_error = Some ''Unsupported site''\<rparr>\<rparr>"
         and d = "\<lparr>data_error = Some ''Unsupported site''\<rparr>" and t = "''Unsupported site''"]
    scrapeNews_error_precedence
      [where s = "setUrl ''https://mb.com.ph/'' initialState"
         and e = "\<lparr>response = Some \<lparr>data = None\<rparr>, request = True,
            message = ''Request failed with status code 502''\<rparr>"
         and r = "\<lparr>data = None\<rparr>"]
    scrapeNews_error_precedence
      [where s = "setUrl ''https://mb.com.ph/'' initialState"
         and e = "\<lparr>response = None, request = True, message = ''Network Error''\<rparr>"]
    scrapeNews_error_precedence
      [where s = "setUrl ''https://mb.com.ph/'' initialState"
         and e = "\<lparr>response = None, request = False, message = ''Invalid URL''\<rparr>"]
  by (simp add: setUrl_def initialState_def)

text \<open>
  C5. For a non-empty url and a fulfilled post whose response has a body: a non-empty
  article list becomes the article list of the state, as it is, and the message is empty
  (so \<open>[a1, a2]\<close> yields \<open>[a1, a2]\<close>); an absent or empty list leaves the article list
  empty and sets the message \<open>No news articles found. The website might use a different
  structure or dynamic loading.\<close> A response whose body is \<^verbatim>\<open>null\<close> has no article list
  either, but it does not get that message: reading \<^verbatim>\<open>news\<close> of the body throws inside
  \<^verbatim>\<open>try\<close>, and the \<^verbatim>\<open>catch\<close> block sets \<open>Error: \<close> followed by the engine's message.
  The \<^verbatim>\<open>catch\<close> block reads the body of an error response through \<^verbatim>\<open>data?.error\<close>; the
  \<^verbatim>\<open>try\<close> block has no such guard.
\<close>

theorem scrapeNews_response:
  "url s \<noteq> [] \<Longrightarrow>
   (l \<noteq> [] \<longrightarrow>
      news (scrapeNews (Fulfilled (Data (Some l))) s) = l \<and>
      error (scrapeNews (Fulfilled (Data (Some l))) s) = []) \<and>
   news (scrapeNews (Fulfilled (Data (Some [a1, a2]))) s) = [a1, a2] \<and>
   error (scrapeNews (Fulfilled (Data (Some [a1, a2]))) s) = [] \<and>
   news (scrapeNews (Fulfilled (Data None)) s) = [] \<and>
   error (scrapeNews (Fulfilled (Data None)) s) =
     ''No news articles found. The website might use a different structure or dynamic loading.'' \<and>
   news (scrapeNews (Fulfilled (Data (Some []))) s) = [] \<and>
   error (scrapeNews (Fulfilled (Data (Some []))) s) =
     ''No news articles found. The website might use a different structure or dynamic loading.'' \<and>
   news (scrapeNews (Fulfilled (NoData m)) s) = [] \<and>
   error (scrapeNews (Fulfilled (NoData m)) s) = ''Error: '' @ m"
  by (simp add: scrape_defs setters)

theorem scrapeNews_response_witness:
  "news (scrapeNews (Fulfilled (Data (Some [item ''Flood'' ''Ana'' ''2024-01-10''])))
           (setUrl ''https://mb.com.ph/'' (setNews [item ''Vote'' ''Ben'' ''2024-03-01''] initialState)))
     = [item ''Flood'' ''Ana'' ''2024-01-10''] \<and>
   news (scrapeNews (Fulfilled (Data None))
           (setUrl ''https://mb.com.ph/'' (setNews [item ''Vote'' ''Ben'' ''2024-03-01''] initialState)))
     = [] \<and>
   error (scrapeNews (Fulfilled (NoData ''response.data is null''))
           (setUrl ''https://mb.com.ph/'' (setNews [item ''Vote'' ''Ben'' ''2024-03-01''] initialState)))
     = ''Error: response.data is null''"
  using scrapeNews_response
    [where s = "setUrl ''https://mb.com.ph/'' (setNews [item ''Vote'' ''Ben'' ''2024-03-01''] initialState)"
       and l = "[item ''Flood'' ''Ana'' ''2024-01-10'']" and m = "''response.data is null''"]
  by (simp add: setters initialState_def)

text \<open>
  C7. For every non-empty url, a call of \<^verbatim>\<open>scrapeNews\<close> whose post settles ends with
  \<open>loading = False\<close>, whatever the outcome: a fulfilled post with articles, one without,
  and a rejected post of any of the three shapes. The part of the call that runs once the
  post has settled lowers \<open>loading\<close> from any state.
\<close>

theorem scrapeNews_loading_false:
  "url s \<noteq> [] \<Longrightarrow>
   loading (scrapeNews out s) = False \<and> loading (scrapeNews_settle out s') = False"
  by (simp add: scrapeNews_def scrapeNews_submit_def scrapeNews_settle_def setLoading_def)

theorem scrapeNews_loading_false_witness:
  "url (setUrl ''https://mb.com.ph/'' initialState) \<noteq> [] \<and>
   loading (scrapeNews (Rejected \<lparr>response = None, request = True, message = ''Network Error''\<rparr>)
              (setUrl ''https://mb.com.ph/'' initialState)) = False"
  using scrapeNews_loading_false
    [where s = "setUrl ''https://mb.com.ph/'' initialState"
       and out = "Rejected \<lparr>response = None, request = True, message = ''Network Error''\<rparr>"]
  by (simp add: setUrl_def initialState_def)

text \<open>
  C10. \<^verbatim>\<open>scrapeNews\<close> neither reads nor writes \<open>serverStatus\<close>: run from two states that
  differ in it alone, with the same outcome of the post, it posts the same url and ends
  with the same \<open>loading\<close>, article list and message; the scrape button behaves alike.
\<close>

theorem scrapeNews_ignores_serverStatus:
  "scrapeNews out (s\<lparr>serverStatus := st\<rparr>) = (scrapeNews out s)\<lparr>serverStatus := st\<rparr> \<and>
   fst (scrapeNews_submit (s\<lparr>serverStatus := st\<rparr>)) = (fst (scrapeNews_submit s))\<lparr>serverStatus := st\<rparr> \<and>
   snd (scrapeNews_submit (s\<lparr>serverStatus := st\<rparr>)) = snd (scrapeNews_submit s) \<and>
   scrapeNews_settle out (s\<lparr>serverStatus := st\<rparr>) = (scrapeNews_settle out s)\<lparr>serverStatus := st\<rparr> \<and>
   loading (scrapeNews out (s\<lparr>serverStatus := st\<rparr>)) = loading (scrapeNews out (s\<lparr>serverStatus := st'\<rparr>)) \<and>
   news (scrapeNews out (s\<lparr>serverStatus := st\<rparr>)) = news (scrapeNews out (s\<lparr>serverStatus := st'\<rparr>)) \<and>
   error (scrapeNews out (s\<lparr>serverStatus := st\<rparr>)) = error (scrapeNews out (s\<lparr>serverStatus := st'\<rparr>)) \<and>
   app (step ClickScrape (sys\<lparr>app := (app sys)\<lparr>serverStatus := st\<rparr>\<rparr>))
     = (app (step ClickScrape sys))\<lparr>serverStatus := st\<rparr> \<and>
   inflight (step ClickScrape (sys\<lparr>app := (app sys)\<lparr>serverStatus := st\<rparr>\<rparr>))
     = inflight (step ClickScrape sys)"
  by (cases out)
     (auto simp: scrape_defs setters step_def split: ResponseData.splits option.splits)

theorem scrapeNews_ignores_serverStatus_witness:
  "news (scrapeNews (Fulfilled (Data (Some [item ''Flood'' ''Ana'' ''2024-01-10''])))
          ((setUrl ''https://mb.com.ph/'' initialState)\<lparr>serverStatus := Offline\<rparr>))
     = news (scrapeNews (Fulfilled (Data (Some [item ''Flood'' ''Ana'' ''2024-01-10''])))
          ((setUrl ''https://mb.com.ph/'' initialState)\<lparr>serverStatus := Online\<rparr>))"
  using scrapeNews_ignores_serverStatus
    [where s = "setUrl ''https://mb.com.ph/'' initialState" and st = Offline and st' = Online
       and out = "Fulfilled (Data (Some [item ''Flood'' ''Ana'' ''2024-01-10'']))"]
  by blast

text \<open>
  C1. \<^verbatim>\<open>scrapeNews\<close> is called from the scrape button only, and the button is disabled
  while \<open>loading\<close> is set. So, starting from the mounted component, whatever the user and
  the network do: at most one post is pending, and one is pending exactly while \<open>loading\<close>
  is set; while it is pending the article list is empty and a click on the button does
  nothing; when a click does start a call, its post is the only pending one, so no
  response to an earlier call can arrive after it. Two calls in succession, for A and
  then for B, are therefore the run in which A's post settles before B's call starts,
  and that run ends in the state that B's call alone gives, whatever A's outcome was:
  nothing of A's response is left in \<open>loading\<close>, the article list or the message.
\<close>

theorem scrapeNews_supersession:
  "length (inflight (run es initialSystem)) \<le> 1 \<and>
   loading (app (run es initialSystem)) = (inflight (run es initialSystem) \<noteq> []) \<and>
   (loading (app (run es initialSystem)) \<longrightarrow> news (app (run es initialSystem)) = []) \<and>
   (loading (app sys) \<longrightarrow> step ClickScrape sys = sys) \<and>
   (\<not> loading (app (run es initialSystem)) \<and> url (app (run es initialSystem)) \<noteq> [] \<longrightarrow>
      inflight (step ClickScrape (run es initialSystem)) = [url (app (run es initialSystem))]) \<and>
   (\<not> loading (app (run es initialSystem)) \<and> urlA \<noteq> [] \<and> urlB \<noteq> [] \<longrightarrow>
      app (run [PickUrl urlA, ClickScrape, PostSettled 0 outA,
                PickUrl urlB, ClickScrape, PostSettled 0 outB] (run es initialSystem))
        = scrapeNews outB (setUrl urlB (app (run es initialSystem)))) \<and>
   (urlA \<noteq> [] \<and> urlB \<noteq> [] \<longrightarrow>
      scrapeNews outB (setUrl urlB (scrapeNews outA (setUrl urlA s))) = scrapeNews outB (setUrl urlB s))"
proof -
  define sys0 where "sys0 = run es initialSystem"
  have inv: "length (inflight sys0) \<le> 1 \<and> loading (app sys0) = (inflight sys0 \<noteq> []) \<and>
      (loading (app sys0) \<longrightarrow> news (app sys0) = [])"
    unfolding sys0_def by (rule inflight_invariant_initial)
  have only: "inflight (step ClickScrape sys0) = [url (app sys0)]"
    if "\<not> loading (app sys0)" "url (app sys0) \<noteq> []"
    using that inv by (simp add: step_def scrapeNews_submit_def)
  have two: "app (run [PickUrl urlA, ClickScrape, PostSettled 0 outA,
                PickUrl urlB, ClickScrape, PostSettled 0 outB] sys0)
        = scrapeNews outB (setUrl urlB (app sys0))"
    if "\<not> loading (app sys0)" "urlA \<noteq> []" "urlB \<noteq> []"
  proof -
    have "inflight sys0 = []" using that(1) inv by simp
    from two_scrapes_through_the_buttons[OF that(1) this that(2,3)]
    show ?thesis by (simp only: scrapeNews_after_scrapeNews[OF that(3)])
  qed
  show ?thesis
    using inv only two unfolding sys0_def
    by (simp add: scrapeNews_after_scrapeNews click_while_loading del: run.simps)
qed

theorem scrapeNews_supersession_witness:
  "loading (app (run [PickUrl ''https://mb.com.ph/'', ClickScrape] initialSystem)) \<and>
   step ClickScrape (run [PickUrl ''https://mb.com.ph/'', ClickScrape] initialSystem)
     = run [PickUrl ''https://mb.com.ph/'', ClickScrape] initialSystem \<and>
   inflight (run [PickUrl ''https://mb.com.ph/'', ClickScrape] initialSystem) = [''https://mb.com.ph/''] \<and>
   \<not> loading (app (run [] initialSystem)) \<and>
   news (app (run [PickUrl ''https://mb.com.ph/'', ClickScrape,
                   PostSettled 0 (Fulfilled (Data (Some [item ''Flood'' ''Ana'' ''2024-01-10'']))),
                   PickUrl ''https://www.rappler.com/'', ClickScrape,
                   PostSettled 0 (Fulfilled (Data (Some [item ''Vote'' ''Ben'' ''2024-03-01''])))]
                (run [] initialSystem)))
     = [item ''Vote'' ''Ben'' ''2024-03-01''] \<and>
   scrapeNews (Fulfilled (Data (Some [item ''Vote'' ''Ben'' ''2024-03-01''])))
     (setUrl ''https://www.rappler.com/''
        (scrapeNews (Fulfilled (Data (Some [item ''Flood'' ''Ana'' ''2024-01-10''])))
           (setUrl ''https://mb.com.ph/'' initialState)))
     = scrapeNews (Fulfilled (Data (Some [item ''Vote'' ''Ben'' ''2024-03-01''])))
         (setUrl ''https://www.rappler.com/'' initialState)"
proof -
  have busy: "loading (app (run [PickUrl ''https://mb.com.ph/'', ClickScrape] initialSystem))"
    and one: "inflight (run [PickUrl ''https://mb.com.ph/'', ClickScrape] initialSystem)
                = [''https://mb.com.ph/'']"
    and idle: "\<not> loading (app (run [] initialSystem))"
    by (simp_all add: step_def scrapeNews_submit_def setters initialSystem_def initialState_def)
  have b: "news (scrapeNews (Fulfilled (Data (Some [item ''Vote'' ''Ben'' ''2024-03-01''])))
                  (setUrl ''https://www.rappler.com/'' (app (run [] initialSystem))))
             = [item ''Vote'' ''Ben'' ''2024-03-01'']"
    by (simp add: scrape_defs setters initialSystem_def initialState_def)
  show ?thesis
    using busy one idle b
      scrapeNews_supersession
        [where es = "[PickUrl ''https://mb.com.ph/'', ClickScrape]"
           and sys = "run [PickUrl ''https://mb.com.ph/'', ClickScrape] initialSystem"
           and urlA = "''https://mb.com.ph/''" and urlB = "''https://www.rappler.com/''"
           and outB = "Fulfilled (Data (Some [item ''Vote'' ''Ben'' ''2024-03-01'']))"
           and outA = "Fulfilled (Data (Some [item ''Flood'' ''Ana'' ''2024-01-10'']))"
           and s = initialState]
      scrapeNews_supersession
        [where es = "[]"
           and urlA = "''https://mb.com.ph/''" and urlB = "''https://www.rappler.com/''"
           and outB = "Fulfilled (Data (Some [item ''Vote'' ''Ben'' ''2024-03-01'']))"
           and outA = "Fulfilled (Data (Some [item ''Flood'' ''Ana'' ''2024-01-10'']))"]
    by (simp del: run.simps)
qed

text \<open>
  C8. A failed probe sets \<open>serverStatus\<close> to \<open>Offline\<close> and the message \<open>Server is
  offline. Please make sure the server is running on port 5000.\<close> No part of
  \<^verbatim>\<open>scrapeNews\<close> changes \<open>serverStatus\<close>; once the probe has settled, nothing the user or
  the network does changes it again, and it is \<open>Checking\<close> exactly while the probe is
  pending. (The message itself is erased by the next scrape; the status is what stays.)
\<close>

theorem offline_status_persists:
  "serverStatus (checkServer False s) = Offline \<and>
   error (checkServer False s) =
     ''Server is offline. Please make sure the server is running on port 5000.'' \<and>
   serverStatus (fst (scrapeNews_submit s)) = serverStatus s \<and>
   serverStatus (scrapeNews_settle out s) = serverStatus s \<and>
   serverStatus (scrapeNews out s) = serverStatus s \<and>
   (\<not> probing sys \<longrightarrow>
      \<not> probing (run es sys) \<and> serverStatus (app (run es sys)) = serverStatus (app sys)) \<and>
   probing (run es initialSystem) = (serverStatus (app (run es initialSystem)) = Checking)"
proof -
  have a: "serverStatus (checkServer False s) = Offline"
    and b: "error (checkServer False s) =
      ''Server is offline. Please make sure the server is running on port 5000.''"
    by (simp_all add: checkServer_def setters)
  have c: "serverStatus (scrapeNews out s) = serverStatus s"
    by (simp add: scrapeNews_def scrapeNews_submit_def serverStatus_scrapeNews_settle setters)
  have d: "probing initialSystem = (serverStatus (app initialSystem) = Checking)"
    by (simp add: initialSystem_def initialState_def)
  show ?thesis
    using a b c serverStatus_run[of sys es] probing_run[OF d, of es]
    by (simp add: serverStatus_scrapeNews_submit serverStatus_scrapeNews_settle)
qed

theorem offline_status_persists_witness:
  "\<not> probing (step (ProbeSettled False) initialSystem) \<and>
   serverStatus (app (run [PickUrl ''https://mb.com.ph/'', ClickScrape,
                           PostSettled 0 (Fulfilled (Data (Some [item ''Flood'' ''Ana'' ''2024-01-10''])))]
                        (step (ProbeSettled False) initialSystem))) = Offline \<and>
   error (app (run [PickUrl ''https://mb.com.ph/'', ClickScrape,
                    PostSettled 0 (Fulfilled (Data (Some [item ''Flood'' ''Ana'' ''2024-01-10''])))]
                 (step (ProbeSettled False) initialSystem))) = []"
  using offline_status_persists
    [where s = initialState and sys = "step (ProbeSettled False) initialSystem"
       and es = "[PickUrl ''https://mb.com.ph/'', ClickScrape,
          PostSettled 0 (Fulfilled (Data (Some [item ''Flood'' ''Ana'' ''2024-01-10''])))]"]
  by (simp add: step_def checkServer_def scrape_defs setters initialSystem_def initialState_def)

section \<open>The claims about the derived view\<close>

text \<open>
  C3 as worded fails on a date that does not parse. Its comparison with any other
  article is \<^verbatim>\<open>NaN\<close>, which the sort takes for "equal", so the article stays where the
  input has it: in front of a dated article when it came first, behind it when it came
  second. It is not treated as the earliest.
\<close>

theorem date_sort_unparseable_counterexample:
  "isoDateGetTime ''not a date'' = None \<and>
   map date (filteredAndSortedNews asciiToLowerCase isoDateGetTime asciiLocaleCompare
               [item ''Flood'' ''Ana'' ''not a date'', item ''Vote'' ''Ben'' ''2024-03-01''] [] SortDate)
     = [''not a date'', ''2024-03-01''] \<and>
   map date (filteredAndSortedNews asciiToLowerCase isoDateGetTime asciiLocaleCompare
               [item ''Vote'' ''Ben'' ''2024-03-01'', item ''Flood'' ''Ana'' ''not a date''] [] SortDate)
     = [''2024-03-01'', ''not a date'']"
  by (simp add: view_defs date_defs)

text \<open>
  C3, amended. For \<open>SortDate\<close>: when the date of every retained article parses, the
  view lists the retained articles by parsed date, latest first; the dates
  \<open>2024-01-10\<close>, \<open>2024-03-01\<close>, \<open>2024-02-15\<close> come out as \<open>2024-03-01\<close>,
  \<open>2024-02-15\<close>, \<open>2024-01-10\<close>. A date that does not parse never makes the sort fail:
  the comparison of its article with any other is \<^verbatim>\<open>NaN\<close>, read as \<open>0\<close>, so the article
  counts as equal to every other one and not as the earliest; when no date parses, the
  view is the retained articles in their input order.
\<close>

theorem date_sort_descending:
  "((\<forall>a \<in> set (filter (keepItem toLowerCase kw) items). getTime (date a) \<noteq> None) \<longrightarrow>
      sorted_wrt (\<lambda>a b. the (getTime (date b)) \<le> the (getTime (date a)))
        (filteredAndSortedNews toLowerCase getTime lc items kw SortDate)) \<and>
   mset (filteredAndSortedNews toLowerCase getTime lc items kw SortDate) = mset (filter (keepItem toLowerCase kw) items) \<and>
   map date (filteredAndSortedNews toLowerCase isoDateGetTime lc
               [item t1 a1 ''2024-01-10'', item t2 a2 ''2024-03-01'', item t3 a3 ''2024-02-15'']
               [] SortDate)
     = [''2024-03-01'', ''2024-02-15'', ''2024-01-10''] \<and>
   (getTime (date a) = None \<or> getTime (date b) = None \<longrightarrow>
      sortCompare (compareItems getTime lc SortDate) a b = 0) \<and>
   ((\<forall>a \<in> set (filter (keepItem toLowerCase kw) items). getTime (date a) = None) \<longrightarrow>
      filteredAndSortedNews toLowerCase getTime lc items kw SortDate = filter (keepItem toLowerCase kw) items)"
proof -
  have ex: "map date (filteredAndSortedNews toLowerCase isoDateGetTime lc
               [item t1 a1 ''2024-01-10'', item t2 a2 ''2024-03-01'', item t3 a3 ''2024-02-15'']
               [] SortDate)
     = [''2024-03-01'', ''2024-02-15'', ''2024-01-10'']"
    by (simp add: filteredAndSortedNews_def keepItem_def item_def compareItems_def
          sortCompare_def date_defs)
  have same: "filteredAndSortedNews toLowerCase getTime lc items kw SortDate = filter (keepItem toLowerCase kw) items"
    if none: "\<forall>a \<in> set (filter (keepItem toLowerCase kw) items). getTime (date a) = None"
    unfolding filteredAndSortedNews_def
  proof (rule arraySort_all_equal)
    fix x y
    assume "x \<in> set (filter (keepItem toLowerCase kw) items)" "y \<in> set (filter (keepItem toLowerCase kw) items)"
    then have "getTime (date x) = None" using none by blast
    then show "sortCompare (compareItems getTime lc SortDate) x y \<le> 0"
      by (simp add: sortCompare_NaN)
  qed
  show ?thesis
    using ex same date_sorted[of "filter (keepItem toLowerCase kw) items" getTime lc]
      sortCompare_NaN[of getTime a b lc]
    by (simp add: filteredAndSortedNews_def mset_arraySort)
qed

theorem date_sort_descending_witness:
  "isoDateGetTime ''2024-01-10'' \<noteq> None \<and> isoDateGetTime ''2024-03-01'' \<noteq> None \<and>
   sorted_wrt (\<lambda>a b. the (isoDateGetTime (date b)) \<le> the (isoDateGetTime (date a)))
     (filteredAndSortedNews asciiToLowerCase isoDateGetTime asciiLocaleCompare
        [item ''Flood'' ''Ana'' ''2024-01-10'', item ''Vote'' ''Ben'' ''2024-03-01''] [] SortDate) \<and>
   sortCompare (compareItems isoDateGetTime asciiLocaleCompare SortDate)
     (item ''Flood'' ''Ana'' ''not a date'') (item ''Vote'' ''Ben'' ''2024-03-01'') = 0 \<and>
   isoDateGetTime ''soon'' = None \<and> isoDateGetTime ''n/a'' = None \<and>
   filteredAndSortedNews asciiToLowerCase isoDateGetTime asciiLocaleCompare
     [item ''Flood'' ''Ana'' ''soon'', item ''Vote'' ''Ben'' ''n/a''] [] SortDate
     = [item ''Flood'' ''Ana'' ''soon'', item ''Vote'' ''Ben'' ''n/a'']"
  using date_sort_descending
    [where kw = "[]"
       and items = "[item ''Flood'' ''Ana'' ''2024-01-10'', item ''Vote'' ''Ben'' ''2024-03-01'']"
       and toLowerCase = asciiToLowerCase and getTime = isoDateGetTime
       and lc = asciiLocaleCompare
       and a = "item ''Flood'' ''Ana'' ''not a date''" and b = "item ''Vote'' ''Ben'' ''2024-03-01''"]
    date_sort_descending
    [where kw = "[]"
       and items = "[item ''Flood'' ''Ana'' ''soon'', item ''Vote'' ''Ben'' ''n/a'']"
       and toLowerCase = asciiToLowerCase and getTime = isoDateGetTime
       and lc = asciiLocaleCompare]
  by (simp add: keepItem_def item_def date_defs)

text \<open>
  C6 as worded fails beyond ASCII. The title is the Greek \<open>CE 91 CE A3\<close> (capital alpha,
  capital sigma) and the keyword is \<open>CE A3\<close> (capital sigma), which stands in the title
  as it is. The lower-case form of the title ends in the final sigma, that of the keyword
  is the plain small sigma, so the search fails and the article is dropped.
\<close>

theorem filter_final_sigma_counterexample:
  "filteredAndSortedNews greekToLowerCase isoDateGetTime asciiLocaleCompare
     [item [CHR 0xCE, CHR 0x91, CHR 0xCE, CHR 0xA3] ''Ana'' ''2024-01-10'']
     [CHR 0xCE, CHR 0xA3] SortDate = [] \<and>
   title (item [CHR 0xCE, CHR 0x91, CHR 0xCE, CHR 0xA3] ''Ana'' ''2024-01-10'')
     = [CHR 0xCE, CHR 0x91] @ [CHR 0xCE, CHR 0xA3] @ [] \<and>
   retainedBySpec greekToLowerCase [CHR 0xCE, CHR 0xA3]
     (item [CHR 0xCE, CHR 0x91, CHR 0xCE, CHR 0xA3] ''Ana'' ''2024-01-10'')"
proof -
  have split: "title (item [CHR 0xCE, CHR 0x91, CHR 0xCE, CHR 0xA3] ''Ana'' ''2024-01-10'')
     = [CHR 0xCE, CHR 0x91] @ [CHR 0xCE, CHR 0xA3] @ []"
    by (simp add: item_def)
  then have "occursIgnoringCase greekToLowerCase [CHR 0xCE, CHR 0xA3]
      (title (item [CHR 0xCE, CHR 0x91, CHR 0xCE, CHR 0xA3] ''Ana'' ''2024-01-10''))"
    unfolding occursIgnoringCase_def by blast
  then have spec: "retainedBySpec greekToLowerCase [CHR 0xCE, CHR 0xA3]
      (item [CHR 0xCE, CHR 0x91, CHR 0xCE, CHR 0xA3] ''Ana'' ''2024-01-10'')"
    by (simp add: retainedBySpec_def)
  have code: "filteredAndSortedNews greekToLowerCase isoDateGetTime asciiLocaleCompare
     [item [CHR 0xCE, CHR 0x91, CHR 0xCE, CHR 0xA3] ''Ana'' ''2024-01-10'']
     [CHR 0xCE, CHR 0xA3] SortDate = []"
    by (simp add: filteredAndSortedNews_def keepItem_def item_def greekToLowerCase_def
          isGreekLetter_def greekSmallOf_def isAsciiLetter_def asciiLowerChar_def)
  show ?thesis using code split spec by blast
qed

text \<open>
  C6, amended. Whatever the articles, the keyword and the sort key, the view holds exactly
  the articles for which the keyword is empty or its lower-case form occurs in the
  lower-case form of the title or of the author, each as often as the result set holds
  it. When keyword, title and author are ASCII text, on which \<^verbatim>\<open>toLowerCase\<close> only moves
  \<open>A\<close> to \<open>Z\<close> to \<open>a\<close> to \<open>z\<close>, that is exactly: the keyword is empty or occurs, up to the
  case of letters, in the title or in the author. The keyword \<open>tech\<close> keeps the title
  \<open>New Tech Launch\<close> and the author \<open>Techie Reporter\<close>, and drops the title
  \<open>Sports Update\<close> by the author \<open>Juan\<close>.
\<close>

theorem filter_retains_iff:
  assumes ascii: "\<And>s. isAscii s \<Longrightarrow> toLowerCase s = asciiToLowerCase s"
  shows
    "mset (filteredAndSortedNews toLowerCase getTime lc items kw key)
       = filter_mset (keepItem toLowerCase kw) (mset items) \<and>
     (isAscii kw \<and> isAscii (title it) \<and> isAscii (author it) \<longrightarrow>
        keepItem toLowerCase kw it = retainedBySpec toLowerCase kw it) \<and>
     (isAscii kw \<and> (\<forall>it \<in> set items. isAscii (title it) \<and> isAscii (author it)) \<longrightarrow>
        mset (filteredAndSortedNews toLowerCase getTime lc items kw key)
          = filter_mset (retainedBySpec toLowerCase kw) (mset items) \<and>
        set (filteredAndSortedNews toLowerCase getTime lc items kw key)
          = {it \<in> set items. retainedBySpec toLowerCase kw it}) \<and>
     set (filteredAndSortedNews toLowerCase getTime lc
            [item ''New Tech Launch'' ''Ana'' d1, item ''Sports Update'' ''Juan'' d2,
             item ''Weather'' ''Techie Reporter'' d3] ''tech'' key)
       = {item ''New Tech Launch'' ''Ana'' d1, item ''Weather'' ''Techie Reporter'' d3} \<and>
     retainedBySpec toLowerCase ''tech'' (item ''New Tech Launch'' ''Ana'' d1) \<and>
     \<not> retainedBySpec toLowerCase ''tech'' (item ''Sports Update'' ''Juan'' d2) \<and>
     retainedBySpec toLowerCase ''tech'' (item ''Weather'' ''Techie Reporter'' d3)"
proof -
  have low: "toLowerCase ''tech'' = ''tech''"
    "toLowerCase ''New Tech Launch'' = ''new tech launch''"
    "toLowerCase ''Sports Update'' = ''sports update''"
    "toLowerCase ''Weather'' = ''weather''"
    "toLowerCase ''Ana'' = ''ana''" "toLowerCase ''Juan'' = ''juan''"
    "toLowerCase ''Techie Reporter'' = ''techie reporter''"
    by (simp_all add: ascii isAscii_def asciiToLowerCase_def asciiLowerChar_def)
  have k1: "keepItem toLowerCase ''tech'' (item ''New Tech Launch'' ''Ana'' d1)"
    and k2: "\<not> keepItem toLowerCase ''tech'' (item ''Sports Update'' ''Juan'' d2)"
    and k3: "keepItem toLowerCase ''tech'' (item ''Weather'' ''Techie Reporter'' d3)"
    by (simp_all add: keepItem_def item_def low)
  have ex: "set (filteredAndSortedNews toLowerCase getTime lc
          [item ''New Tech Launch'' ''Ana'' d1, item ''Sports Update'' ''Juan'' d2,
           item ''Weather'' ''Techie Reporter'' d3] ''tech'' key)
     = {item ''New Tech Launch'' ''Ana'' d1, item ''Weather'' ''Techie Reporter'' d3}"
    unfolding filteredAndSortedNews_def set_arraySort using k1 k2 k3 by simp
  have r1: "retainedBySpec toLowerCase ''tech'' (item ''New Tech Launch'' ''Ana'' d1)"
    using k1 keepItem_iff_retainedBySpec[OF ascii, of "''tech''" "item ''New Tech Launch'' ''Ana'' d1"]
    by (simp add: item_def isAscii_def)
  have r2: "\<not> retainedBySpec toLowerCase ''tech'' (item ''Sports Update'' ''Juan'' d2)"
    using k2 keepItem_iff_retainedBySpec[OF ascii, of "''tech''" "item ''Sports Update'' ''Juan'' d2"]
    by (simp add: item_def isAscii_def)
  have r3: "retainedBySpec toLowerCase ''tech'' (item ''Weather'' ''Techie Reporter'' d3)"
    using k3 keepItem_iff_retainedBySpec[OF ascii, of "''tech''" "item ''Weather'' ''Techie Reporter'' d3"]
    by (simp add: item_def isAscii_def)
  have code: "mset (filteredAndSortedNews toLowerCase getTime lc items kw key)
      = filter_mset (keepItem toLowerCase kw) (mset items)"
    by (simp add: filteredAndSortedNews_def mset_arraySort)
  have one: "keepItem toLowerCase kw it = retainedBySpec toLowerCase kw it"
    if "isAscii kw" "isAscii (title it)" "isAscii (author it)" for it
    using ascii that by (rule keepItem_iff_retainedBySpec)
  have all: "mset (filteredAndSortedNews toLowerCase getTime lc items kw key)
          = filter_mset (retainedBySpec toLowerCase kw) (mset items) \<and>
        set (filteredAndSortedNews toLowerCase getTime lc items kw key)
          = {it \<in> set items. retainedBySpec toLowerCase kw it}"
    if kw: "isAscii kw" and its: "\<forall>it \<in> set items. isAscii (title it) \<and> isAscii (author it)"
  proof -
    have same: "keepItem toLowerCase kw it = retainedBySpec toLowerCase kw it"
      if "it \<in> set items" for it
      using one[OF kw, of it] its that by blast
    have "filter (keepItem toLowerCase kw) items = filter (retainedBySpec toLowerCase kw) items"
      by (rule filter_cong) (simp_all add: same)
    then show ?thesis
      by (simp add: filteredAndSortedNews_def mset_arraySort set_arraySort flip: mset_filter)
  qed
  show ?thesis
    using code one all ex r1 r2 r3 by (intro conjI impI) blast+
qed

theorem filter_retains_iff_witness:
  "isAscii ''tech'' \<and> isAscii ''New Tech Launch'' \<and> isAscii ''Ana'' \<and>
   keepItem greekToLowerCase ''tech'' (item ''New Tech Launch'' ''Ana'' ''2024-01-10'')
     = retainedBySpec greekToLowerCase ''tech'' (item ''New Tech Launch'' ''Ana'' ''2024-01-10'') \<and>
   set (filteredAndSortedNews greekToLowerCase isoDateGetTime asciiLocaleCompare
          [item ''New Tech Launch'' ''Ana'' ''2024-01-10'', item ''Sports Update'' ''Juan'' ''2024-03-01'',
           item ''Weather'' ''Techie Reporter'' ''2024-02-15''] ''tech'' SortDate)
     = {item ''New Tech Launch'' ''Ana'' ''2024-01-10'', item ''Weather'' ''Techie Reporter'' ''2024-02-15''}"
proof -
  have a: "isAscii ''tech''" "isAscii ''New Tech Launch''" "isAscii ''Ana''"
    by (simp_all add: isAscii_def)
  show ?thesis
    using a filter_retains_iff
      [where toLowerCase = greekToLowerCase and getTime = isoDateGetTime
         and lc = asciiLocaleCompare and key = SortDate and kw = "''tech''"
         and it = "item ''New Tech Launch'' ''Ana'' ''2024-01-10''"
         and ?d1.0 = "''2024-01-10''" and ?d2.0 = "''2024-03-01''" and ?d3.0 = "''2024-02-15''",
       OF greekToLowerCase_ascii]
    by (simp add: item_def)
qed

text \<open>
  C9. For \<open>SortTitle\<close> the view lists the retained articles in ascending order of
  \<^verbatim>\<open>localeCompare\<close> on their titles, for every comparer that is consistent (the sign
  flips when the arguments are swapped, and "not after" is transitive), as ECMAScript
  asks of \<^verbatim>\<open>localeCompare\<close>. With a comparer that puts \<open>apple\<close> before \<open>Banana\<close> and
  \<open>Banana\<close> before \<open>Cherry\<close>, the titles \<open>Banana\<close>, \<open>apple\<close>, \<open>Cherry\<close> come out as
  \<open>apple\<close>, \<open>Banana\<close>, \<open>Cherry\<close>.
\<close>

theorem title_sort_ascending:
  assumes sign: "\<And>a b. (localeCompare a b < 0) = (0 < localeCompare b a)"
    and trans: "\<And>a b c. localeCompare a b \<le> 0 \<Longrightarrow> localeCompare b c \<le> 0 \<Longrightarrow> localeCompare a c \<le> 0"
  shows
    "sorted_wrt (\<lambda>a b. localeCompare (title a) (title b) \<le> 0)
       (filteredAndSortedNews toLowerCase getTime localeCompare items kw SortTitle) \<and>
     mset (filteredAndSortedNews toLowerCase getTime localeCompare items kw SortTitle)
       = mset (filter (keepItem toLowerCase kw) items) \<and>
     (localeCompare ''apple'' ''Banana'' < 0 \<and> localeCompare ''Banana'' ''Cherry'' < 0 \<longrightarrow>
        map title (filteredAndSortedNews toLowerCase getTime localeCompare
                     [item ''Banana'' a1 d1, item ''apple'' a2 d2, item ''Cherry'' a3 d3] [] SortTitle)
          = [''apple'', ''Banana'', ''Cherry''])"
proof -
  have anti: "localeCompare b a \<le> 0" if "0 < localeCompare a b" for a b
    using sign[of b a] that by simp
  have srt: "sorted_wrt (\<lambda>a b. localeCompare (title a) (title b) \<le> 0)
       (filteredAndSortedNews toLowerCase getTime localeCompare items kw SortTitle)"
    unfolding filteredAndSortedNews_def by (rule title_sorted[OF anti trans])
  have ex: "map title (filteredAndSortedNews toLowerCase getTime localeCompare
                     [item ''Banana'' a1 d1, item ''apple'' a2 d2, item ''Cherry'' a3 d3] [] SortTitle)
          = [''apple'', ''Banana'', ''Cherry'']"
    if ab: "localeCompare ''apple'' ''Banana'' < 0" and bc: "localeCompare ''Banana'' ''Cherry'' < 0"
  proof -
    have ba: "0 < localeCompare ''Banana'' ''apple''" using ab sign[of "''apple''" "''Banana''"] by simp
    have ac: "localeCompare ''apple'' ''Cherry'' \<le> 0"
      using trans[of "''apple''" "''Banana''" "''Cherry''"] ab bc by simp
    have bc': "\<not> 0 < localeCompare ''Banana'' ''Cherry''" using bc by simp
    have ac': "\<not> 0 < localeCompare ''apple'' ''Cherry''" using ac by simp
    show ?thesis
      using ba bc' ac'
      by (simp add: filteredAndSortedNews_def keepItem_def item_def compareItems_def sortCompare_def)
  qed
  show ?thesis
    using srt ex by (simp add: filteredAndSortedNews_def mset_arraySort)
qed

theorem title_sort_ascending_witness:
  "asciiLocaleCompare ''apple'' ''Banana'' < 0 \<and> asciiLocaleCompare ''Banana'' ''Cherry'' < 0 \<and>
   map title (filteredAndSortedNews asciiToLowerCase isoDateGetTime asciiLocaleCompare
               [item ''Banana'' ''Ana'' ''2024-01-10'', item ''apple'' ''Ben'' ''2024-03-01'',
                item ''Cherry'' ''Cy'' ''2024-02-15''] [] SortTitle)
     = [''apple'', ''Banana'', ''Cherry''] \<and>
   sorted_wrt (\<lambda>a b. asciiLocaleCompare (title a) (title b) \<le> 0)
     (filteredAndSortedNews asciiToLowerCase isoDateGetTime asciiLocaleCompare
        [item ''Banana'' ''Ana'' ''2024-01-10'', item ''apple'' ''Ben'' ''2024-03-01'',
         item ''Cherry'' ''Cy'' ''2024-02-15''] [] SortTitle)"
proof -
  have ord: "asciiLocaleCompare ''apple'' ''Banana'' < 0 \<and> asciiLocaleCompare ''Banana'' ''Cherry'' < 0"
    by (simp add: asciiLocaleCompare_def asciiToLowerCase_def asciiLowerChar_def)
  show ?thesis
    using ord title_sort_ascending
      [where localeCompare = asciiLocaleCompare and toLowerCase = asciiToLowerCase
         and getTime = isoDateGetTime
         and items = "[item ''Banana'' ''Ana'' ''2024-01-10'', item ''apple'' ''Ben'' ''2024-03-01'',
            item ''Cherry'' ''Cy'' ''2024-02-15'']" and kw = "[]"
         and ?a1.0 = "''Ana''" and ?d1.0 = "''2024-01-10''" and ?a2.0 = "''Ben''"
         and ?d2.0 = "''2024-03-01''" and ?a3.0 = "''Cy''" and ?d3.0 = "''2024-02-15''",
       OF asciiLocaleCompare_sign asciiLocaleCompare_trans]
    by simp
qed

end
